theory Spec2Isabelle
  imports Main
begin

section \<open>The pending-transactions store of the bridge UI\<close>

text \<open>
  Source: \<^verbatim>\<open>packages/bridge-ui/src/store/transactions.ts\<close>.

  The module owns one writable store holding the list of pending transactions and
  exposes \<^verbatim>\<open>set\<close>, \<^verbatim>\<open>subscribe\<close> and the custom method \<^verbatim>\<open>add\<close>.
  \<^verbatim>\<open>add\<close> appends a transaction, asks the signer's provider to wait for
  it to be mined and hands a promise back; the callbacks chained on the provider's
  promise run later, from the event loop.

  JavaScript runs one callback at a time, so the model is a state that is passed through
  every call, a list of events (calls of \<^verbatim>\<open>add\<close> and \<^verbatim>\<open>set\<close>, and the
  settling of a provider promise), and a trace of the effects the module performs, in
  the order in which it performs them.
\<close>

subsection \<open>Data\<close>

text \<open>
  The module reads one field of a transaction, \<^verbatim>\<open>tx.hash\<close>, one field of a
  receipt, \<^verbatim>\<open>receipt.status\<close>, and one field of a signer,
  \<^verbatim>\<open>signer.provider\<close>. A receipt without a status (the field is optional in
  ethers) has status \<open>None\<close>. Providers are told apart by a number.
\<close>

record Transaction =
  hash :: string

record TransactionReceipt =
  transactionHash :: string
  status :: "int option"

record Signer =
  provider :: nat

text \<open>
  What the provider's promise may be rejected with: any JavaScript value. The handler
  reads \<^verbatim>\<open>error?.code\<close>, which is undefined for null and undefined and for an
  object without that field.
\<close>

datatype thrown = Nullish | ErrorObject "string option" string

fun error_code :: "thrown \<Rightarrow> string option" where
  "error_code Nullish = None"
| "error_code (ErrorObject c m) = c"

text \<open>
  Modelled from the spec: \<^verbatim>\<open>ethers.errors.TIMEOUT\<close>, the classification the
  provider gives to an error that denotes "timed out"; the ethers library is not part
  of the sources.
\<close>

definition TIMEOUT :: string where
  "TIMEOUT = ''TIMEOUT''"

text \<open>\<^verbatim>\<open>new Error(message, { cause })\<close>: the cause is a receipt or the caught value.\<close>

datatype cause = CauseReceipt TransactionReceipt | CauseError thrown

datatype Error = Error string cause

text \<open>
  Modelled from the spec: \<^verbatim>\<open>Deferred\<close> (\<^verbatim>\<open>utils/Deferred\<close>, not part of the
  sources), a single-resolution result cell whose completion is decoupled from its
  creation. Its promise is pending until the first call of resolve or reject; a later
  call leaves it as it is.
\<close>

datatype promise_state = Pending | Fulfilled TransactionReceipt | Rejected Error

fun settle :: "promise_state \<Rightarrow> promise_state \<Rightarrow> promise_state" where
  "settle v Pending = v"
| "settle v (Fulfilled r) = Fulfilled r"
| "settle v (Rejected e) = Rejected e"

text \<open>
  The effects of the module, as the outside sees them: a request to the provider
  (provider, hash, confirmations, timeout in milliseconds), a new value of the store
  (every subscriber is notified with it), and a call of resolve or reject on the
  deferred of the given number.
\<close>

datatype effect =
    WaitForTransaction nat string nat nat
  | StoreSet "Transaction list"
  | Resolve nat TransactionReceipt
  | Reject nat Error

text \<open>
  What the callbacks chained on one provider promise have captured:
  \<^verbatim>\<open>idxAppendedTransaction\<close> and \<^verbatim>\<open>deferred\<close>.
\<close>

record closure =
  idxAppendedTransaction :: nat
  deferred :: nat

text \<open>
  The state: the value of the store, the promise of every deferred created so far (the
  k-th call of \<^verbatim>\<open>add\<close> creates deferred k), the provider promises requested so far
  (\<open>Some\<close> the captured closure while the promise has not settled, \<open>None\<close> afterwards),
  and the trace.
\<close>

record state =
  txs :: "Transaction list"
  deferreds :: "promise_state list"
  watches :: "closure option list"
  trace :: "effect list"

definition init :: state where
  "init = \<lparr>txs = [], deferreds = [], watches = [], trace = []\<rparr>"

subsection \<open>The store and the deferred\<close>

text \<open>
  Modelled from the spec: \<^verbatim>\<open>set\<close> and \<^verbatim>\<open>update\<close> of the writable store
  (\<^verbatim>\<open>svelte/store\<close>, not part of the sources): the whole collection is replaced
  and all subscribers are notified; \<^verbatim>\<open>update\<close> computes the new collection from
  the current one.
\<close>

definition set_store :: "Transaction list \<Rightarrow> state \<Rightarrow> state" where
  "set_store new s = s\<lparr>txs := new, trace := trace s @ [StoreSet new]\<rparr>"

definition update_store :: "(Transaction list \<Rightarrow> Transaction list) \<Rightarrow> state \<Rightarrow> state" where
  "update_store f s = set_store (f (txs s)) s"

text \<open>
  \<^verbatim>\<open>Array.prototype.splice(start, deleteCount)\<close> for a start and a count that
  are not negative: the elements from \<open>start\<close> on, at most \<open>deleteCount\<close> of them, are
  removed. A start at or beyond the length removes nothing and raises nothing.
\<close>

definition splice_array :: "nat \<Rightarrow> nat \<Rightarrow> 'a list \<Rightarrow> 'a list" where
  "splice_array start deleteCount xs = take start xs @ drop (start + deleteCount) xs"

text \<open>
  \<^verbatim>\<open>deferred.resolve(receipt)\<close> and \<^verbatim>\<open>deferred.reject(err)\<close> on
  the deferred of number \<open>d\<close>: the call is recorded, and the promise is settled if it
  was pending.
\<close>

definition complete :: "nat \<Rightarrow> promise_state \<Rightarrow> promise_state list \<Rightarrow> promise_state list" where
  "complete d v ps = (if d < length ps then ps[d := settle v (ps ! d)] else ps)"

definition resolve :: "nat \<Rightarrow> TransactionReceipt \<Rightarrow> state \<Rightarrow> state" where
  "resolve d receipt s =
     s\<lparr>deferreds := complete d (Fulfilled receipt) (deferreds s),
       trace := trace s @ [Resolve d receipt]\<rparr>"

definition reject :: "nat \<Rightarrow> Error \<Rightarrow> state \<Rightarrow> state" where
  "reject d err s =
     s\<lparr>deferreds := complete d (Rejected err) (deferreds s),
       trace := trace s @ [Reject d err]\<rparr>"

subsection \<open>add and its callbacks\<close>

text \<open>
  \<^verbatim>\<open>signer.provider.waitForTransaction(hash, confirms, timeout)\<close> with the
  callbacks chained on the promise it returns: the request is issued and the promise is
  outstanding.
\<close>

definition waitForTransaction ::
    "nat \<Rightarrow> string \<Rightarrow> nat \<Rightarrow> nat \<Rightarrow> closure \<Rightarrow> state \<Rightarrow> state" where
  "waitForTransaction p h confirms timeout c s =
     s\<lparr>watches := watches s @ [Some c],
       trace := trace s @ [WaitForTransaction p h confirms timeout]\<rparr>"

text \<open>
  \<^verbatim>\<open>add(tx, signer)\<close>, lines 26 to 92. The callback given to \<^verbatim>\<open>update\<close>
  builds the new array, records the index of its last element, calls the provider, and
  returns the new array, which the store then takes as its value. The promise of the new
  deferred is returned.
\<close>

definition add :: "Transaction \<Rightarrow> Signer \<Rightarrow> state \<Rightarrow> nat \<times> state" where
  "add tx signer s =
     (let d = length (deferreds s);
          s1 = s\<lparr>deferreds := deferreds s @ [Pending]\<rparr>;
          newPendingTransactions = txs s1 @ [tx];
          idx = length newPendingTransactions - 1;
          s2 = waitForTransaction (provider signer) (hash tx) 1 (5 * 60 * 1000)
                 \<lparr>idxAppendedTransaction = idx, deferred = d\<rparr> s1;
          s3 = set_store newPendingTransactions s2
      in (d, s3))"

text \<open>
  The \<^verbatim>\<open>then\<close> callback, lines 50 to 71: the element at the recorded index is
  spliced out of a copy of the current array, the store takes the copy, and the deferred
  is resolved when \<^verbatim>\<open>receipt.status === 1\<close> and rejected otherwise. The calls of
  the debug logger are left out.
\<close>

definition then_handler :: "closure \<Rightarrow> TransactionReceipt \<Rightarrow> state \<Rightarrow> state" where
  "then_handler c receipt s =
     (let s1 = update_store (\<lambda>txs. splice_array (idxAppendedTransaction c) 1 txs) s
      in if status receipt = Some 1
         then resolve (deferred c) receipt s1
         else reject (deferred c) (Error ''Transaction failed'' (CauseReceipt receipt)) s1)"

text \<open>The \<^verbatim>\<open>catch\<close> callback, lines 72 to 86.\<close>

definition catch_handler :: "closure \<Rightarrow> thrown \<Rightarrow> state \<Rightarrow> state" where
  "catch_handler c error s =
     (if error_code error = Some TIMEOUT
      then reject (deferred c)
             (Error ''timeout while waiting for transaction to be mined'' (CauseError error)) s
      else reject (deferred c) (Error ''transaction failed'' (CauseError error)) s)"

subsection \<open>The event loop\<close>

text \<open>
  An event is a call of \<^verbatim>\<open>add\<close>, a call of \<^verbatim>\<open>set\<close>, or the settling of the
  k-th provider promise: fulfilled with a receipt (the \<^verbatim>\<open>then\<close> callback runs) or
  rejected with a value (the \<^verbatim>\<open>catch\<close> callback runs). A promise settles once:
  an event for a promise that has settled, or that was never requested, does nothing.

  The \<^verbatim>\<open>catch\<close> callback is chained behind the \<^verbatim>\<open>then\<close> callback,
  so it would also run if that one raised. On a receipt object the \<^verbatim>\<open>then\<close>
  callback raises nothing of its own; the subscribers of the store and the logger are
  taken to raise nothing either.
\<close>

datatype outcome = Receipt TransactionReceipt | Failure thrown

datatype event =
    Add Transaction Signer
  | Set "Transaction list"
  | Settled nat outcome

fun on_outcome :: "closure \<Rightarrow> outcome \<Rightarrow> state \<Rightarrow> state" where
  "on_outcome c (Receipt receipt) s = then_handler c receipt s"
| "on_outcome c (Failure error) s = catch_handler c error s"

fun outstanding :: "state \<Rightarrow> nat \<Rightarrow> closure option" where
  "outstanding s k = (if k < length (watches s) then watches s ! k else None)"

fun step :: "state \<Rightarrow> event \<Rightarrow> state" where
  "step s (Add tx signer) = snd (add tx signer s)"
| "step s (Set new) = set_store new s"
| "step s (Settled k out) =
     (case outstanding s k of
        None \<Rightarrow> s
      | Some c \<Rightarrow> on_outcome c out (s\<lparr>watches := (watches s)[k := None]\<rparr>))"

definition run :: "event list \<Rightarrow> state \<Rightarrow> state" where
  "run evs s = foldl step s evs"

subsection \<open>Reading the trace\<close>

text \<open>The calls of resolve and reject on the deferred of number \<open>d\<close>.\<close>

fun settles :: "nat \<Rightarrow> effect \<Rightarrow> bool" where
  "settles d (Resolve d' receipt) = (d = d')"
| "settles d (Reject d' err) = (d = d')"
| "settles d (WaitForTransaction p h confirms timeout) = False"
| "settles d (StoreSet new) = False"

definition settle_count :: "nat \<Rightarrow> effect list \<Rightarrow> nat" where
  "settle_count d tr = length (filter (settles d) tr)"

text \<open>The requests made to providers, and the values given to the store.\<close>

fun is_request :: "effect \<Rightarrow> bool" where
  "is_request (WaitForTransaction p h confirms timeout) = True"
| "is_request (StoreSet new) = False"
| "is_request (Resolve d receipt) = False"
| "is_request (Reject d err) = False"

definition requests :: "effect list \<Rightarrow> effect list" where
  "requests tr = filter is_request tr"

fun is_store_set :: "effect \<Rightarrow> bool" where
  "is_store_set (StoreSet new) = True"
| "is_store_set (WaitForTransaction p h confirms timeout) = False"
| "is_store_set (Resolve d receipt) = False"
| "is_store_set (Reject d err) = False"

definition store_sets :: "effect list \<Rightarrow> effect list" where
  "store_sets tr = filter is_store_set tr"

text \<open>
  The states the event loop can be in: every call of \<^verbatim>\<open>add\<close> has created one
  deferred and one provider promise, of the same number; while the provider promise is
  outstanding the deferred is pending and nobody has called resolve or reject on it;
  once the provider promise has settled, exactly one such call has been made.
\<close>

definition consistent :: "state \<Rightarrow> bool" where
  "consistent s \<longleftrightarrow>
     length (deferreds s) = length (watches s) \<and>
     (\<forall>k < length (watches s).
        case watches s ! k of
          Some c \<Rightarrow> deferred c = k \<and> deferreds s ! k = Pending \<and> settle_count k (trace s) = 0
        | None \<Rightarrow> deferreds s ! k \<noteq> Pending \<and> settle_count k (trace s) = 1) \<and>
     (\<forall>k \<ge> length (watches s). settle_count k (trace s) = 0)"

section \<open>Properties\<close>

subsection \<open>What each operation does to each part of the state\<close>

lemma resolve_simps [simp]:
  "txs (resolve d r s) = txs s"
  "watches (resolve d r s) = watches s"
  "trace (resolve d r s) = trace s @ [Resolve d r]"
  "deferreds (resolve d r s) = complete d (Fulfilled r) (deferreds s)"
  by (simp_all add: resolve_def)

lemma reject_simps [simp]:
  "txs (reject d e s) = txs s"
  "watches (reject d e s) = watches s"
  "trace (reject d e s) = trace s @ [Reject d e]"
  "deferreds (reject d e s) = complete d (Rejected e) (deferreds s)"
  by (simp_all add: reject_def)

lemma set_store_simps [simp]:
  "txs (set_store new s) = new"
  "watches (set_store new s) = watches s"
  "trace (set_store new s) = trace s @ [StoreSet new]"
  "deferreds (set_store new s) = deferreds s"
  by (simp_all add: set_store_def)

lemma length_complete [simp]: "length (complete d v ps) = length ps"
  by (simp add: complete_def)

lemma nth_complete:
  "k < length ps \<Longrightarrow> complete d v ps ! k = (if k = d then settle v (ps ! k) else ps ! k)"
  by (simp add: complete_def)

lemma txs_then_handler:
  "txs (then_handler c receipt s) = splice_array (idxAppendedTransaction c) 1 (txs s)"
  by (simp add: then_handler_def update_store_def Let_def)

lemma watches_then_handler [simp]: "watches (then_handler c receipt s) = watches s"
  by (simp add: then_handler_def update_store_def Let_def)

lemma trace_then_handler:
  "trace (then_handler c receipt s) =
     trace s @ [StoreSet (splice_array (idxAppendedTransaction c) 1 (txs s)),
                if status receipt = Some 1 then Resolve (deferred c) receipt
                else Reject (deferred c) (Error ''Transaction failed'' (CauseReceipt receipt))]"
  by (simp add: then_handler_def update_store_def Let_def)

lemma deferreds_then_handler:
  "deferreds (then_handler c receipt s) =
     complete (deferred c)
       (if status receipt = Some 1 then Fulfilled receipt
        else Rejected (Error ''Transaction failed'' (CauseReceipt receipt)))
       (deferreds s)"
  by (simp add: then_handler_def update_store_def Let_def)

lemma txs_catch_handler [simp]: "txs (catch_handler c error s) = txs s"
  by (simp add: catch_handler_def)

lemma watches_catch_handler [simp]: "watches (catch_handler c error s) = watches s"
  by (simp add: catch_handler_def)

lemma trace_catch_handler:
  "trace (catch_handler c error s) =
     trace s @ [Reject (deferred c)
       (if error_code error = Some TIMEOUT
        then Error ''timeout while waiting for transaction to be mined'' (CauseError error)
        else Error ''transaction failed'' (CauseError error))]"
  by (simp add: catch_handler_def)

lemma deferreds_catch_handler:
  "deferreds (catch_handler c error s) =
     complete (deferred c)
       (Rejected (if error_code error = Some TIMEOUT
        then Error ''timeout while waiting for transaction to be mined'' (CauseError error)
        else Error ''transaction failed'' (CauseError error)))
       (deferreds s)"
  by (simp add: catch_handler_def)

lemma add_simps:
  "fst (add tx signer s) = length (deferreds s)"
  "txs (snd (add tx signer s)) = txs s @ [tx]"
  "deferreds (snd (add tx signer s)) = deferreds s @ [Pending]"
  "watches (snd (add tx signer s)) =
     watches s @ [Some \<lparr>idxAppendedTransaction = length (txs s), deferred = length (deferreds s)\<rparr>]"
  "trace (snd (add tx signer s)) =
     trace s @ [WaitForTransaction (provider signer) (hash tx) 1 300000, StoreSet (txs s @ [tx])]"
  by (simp_all add: add_def waitForTransaction_def Let_def)

subsection \<open>The states of the event loop are consistent\<close>

lemma settle_count_append [simp]:
  "settle_count d (tr @ tr') = settle_count d tr + settle_count d tr'"
  by (simp add: settle_count_def)

lemma settle_count_Nil [simp]: "settle_count d [] = 0"
  by (simp add: settle_count_def)

lemma settle_count_Cons [simp]:
  "settle_count d (e # tr) = (if settles d e then 1 else 0) + settle_count d tr"
  by (simp add: settle_count_def)

lemma consistent_init: "consistent init"
  by (simp add: consistent_def init_def)

lemma consistent_add: "consistent s \<Longrightarrow> consistent (snd (add tx signer s))"
  unfolding consistent_def
  by (auto simp: add_simps nth_append split: option.splits)

lemma consistent_set_store: "consistent s \<Longrightarrow> consistent (set_store new s)"
  unfolding consistent_def by (auto split: option.splits)

lemma on_outcome_simps:
  "watches (on_outcome c out s) = watches s"
  "settle_count d (trace (on_outcome c out s)) =
     settle_count d (trace s) + (if d = deferred c then 1 else 0)"
  "length (deferreds (on_outcome c out s)) = length (deferreds s)"
  "k < length (deferreds s) \<Longrightarrow> k \<noteq> deferred c \<Longrightarrow>
     deferreds (on_outcome c out s) ! k = deferreds s ! k"
  "deferred c < length (deferreds s) \<Longrightarrow> deferreds s ! deferred c = Pending \<Longrightarrow>
     deferreds (on_outcome c out s) ! deferred c \<noteq> Pending"
  by (cases out; simp add: trace_then_handler trace_catch_handler deferreds_then_handler
        deferreds_catch_handler nth_complete)+

lemma consistent_settled:
  assumes "consistent s"
  shows "consistent (step s (Settled k out))"
proof (cases "outstanding s k")
  case None
  then show ?thesis using assms by simp
next
  case (Some c)
  then have k: "k < length (watches s)" and w: "watches s ! k = Some c"
    by (auto split: if_splits)
  have l: "length (deferreds s) = length (watches s)"
    and all: "\<And>j. j < length (watches s) \<Longrightarrow>
      (case watches s ! j of
          Some c \<Rightarrow> deferred c = j \<and> deferreds s ! j = Pending \<and> settle_count j (trace s) = 0
        | None \<Rightarrow> deferreds s ! j \<noteq> Pending \<and> settle_count j (trace s) = 1)"
    and beyond: "\<And>j. j \<ge> length (watches s) \<Longrightarrow> settle_count j (trace s) = 0"
    using assms unfolding consistent_def by blast+
  from all[OF k] w have d: "deferred c = k" and p: "deferreds s ! k = Pending"
    and n: "settle_count k (trace s) = 0"
    by simp_all
  define s1 where "s1 = s\<lparr>watches := (watches s)[k := None]\<rparr>"
  define s' where "s' = on_outcome c out s1"
  have st: "step s (Settled k out) = s'"
    using Some by (simp add: s'_def s1_def)
  have s1: "deferreds s1 = deferreds s" "trace s1 = trace s"
    "watches s1 = (watches s)[k := None]"
    by (simp_all add: s1_def)
  have W: "watches s' = (watches s)[k := None]"
    by (simp add: s'_def on_outcome_simps s1)
  have L: "length (deferreds s') = length (deferreds s)"
    by (simp add: s'_def on_outcome_simps s1)
  have C: "settle_count j (trace s') = settle_count j (trace s) + (if j = k then 1 else 0)" for j
    by (simp add: s'_def on_outcome_simps s1 d)
  have D: "deferreds s' ! j = deferreds s ! j" if "j < length (watches s)" "j \<noteq> k" for j
    using that by (simp add: s'_def on_outcome_simps s1 d l)
  have P: "deferreds s' ! k \<noteq> Pending"
    using on_outcome_simps(5)[of c s1 out] k p by (simp add: s'_def s1 d l)
  have "case watches s' ! j of
          Some c \<Rightarrow> deferred c = j \<and> deferreds s' ! j = Pending \<and> settle_count j (trace s') = 0
        | None \<Rightarrow> deferreds s' ! j \<noteq> Pending \<and> settle_count j (trace s') = 1"
    if j: "j < length (watches s')" for j
  proof (cases "j = k")
    case True
    then show ?thesis using k P n by (simp add: W C split: option.splits)
  next
    case False
    with j have "j < length (watches s)" by (simp add: W)
    with all[OF this] False show ?thesis by (simp add: W C D split: option.splits)
  qed
  moreover have "settle_count j (trace s') = 0" if "j \<ge> length (watches s')" for j
    using that k beyond[of j] by (simp add: W C)
  ultimately show ?thesis
    unfolding st consistent_def using l by (simp add: L W)
qed

lemma consistent_step: "consistent s \<Longrightarrow> consistent (step s e)"
  by (cases e) (simp_all add: consistent_add consistent_set_store consistent_settled del: step.simps(3))

lemma run_Nil [simp]: "run [] s = s"
  by (simp add: run_def)

lemma run_Cons [simp]: "run (e # evs) s = run evs (step s e)"
  by (simp add: run_def)

lemma consistent_run: "consistent s \<Longrightarrow> consistent (run evs s)"
  by (induction evs arbitrary: s) (simp_all add: consistent_step del: step.simps)

subsection \<open>Outstanding and settled provider promises\<close>

lemma step_settled_outstanding:
  "outstanding s k = Some c \<Longrightarrow>
     step s (Settled k out) = on_outcome c out (s\<lparr>watches := (watches s)[k := None]\<rparr>)"
  by simp

lemma consistent_outstanding:
  assumes "consistent s" and "outstanding s k = Some c"
  shows "deferred c = k" and "k < length (deferreds s)" and "deferreds s ! k = Pending"
    and "settle_count k (trace s) = 0"
proof -
  from assms(2) have k: "k < length (watches s)" and w: "watches s ! k = Some c"
    by (simp_all split: if_splits)
  from assms(1) have l: "length (deferreds s) = length (watches s)"
    and "case watches s ! k of
          Some c \<Rightarrow> deferred c = k \<and> deferreds s ! k = Pending \<and> settle_count k (trace s) = 0
        | None \<Rightarrow> deferreds s ! k \<noteq> Pending \<and> settle_count k (trace s) = 1"
    using k unfolding consistent_def by blast+
  with w k show "deferred c = k" and "k < length (deferreds s)" and "deferreds s ! k = Pending"
    and "settle_count k (trace s) = 0"
    by simp_all
qed

lemma consistent_settled_count:
  assumes "consistent s" and "k < length (watches s)" and "watches s ! k = None"
  shows "settle_count k (trace s) = 1" and "deferreds s ! k \<noteq> Pending"
proof -
  from assms(1,2) have "case watches s ! k of
          Some c \<Rightarrow> deferred c = k \<and> deferreds s ! k = Pending \<and> settle_count k (trace s) = 0
        | None \<Rightarrow> deferreds s ! k \<noteq> Pending \<and> settle_count k (trace s) = 1"
    unfolding consistent_def by blast
  with assms(3) show "settle_count k (trace s) = 1" and "deferreds s ! k \<noteq> Pending"
    by simp_all
qed

lemma settled_stays_step:
  assumes "k < length (watches s)" and "watches s ! k = None"
  shows "k < length (watches (step s e)) \<and> watches (step s e) ! k = None"
proof (cases e)
  case (Add tx signer)
  with assms show ?thesis by (simp add: add_simps nth_append)
next
  case (Set new)
  with assms show ?thesis by simp
next
  case (Settled j out)
  show ?thesis
  proof (cases "outstanding s j")
    case None
    with assms Settled show ?thesis by simp
  next
    case (Some c)
    with assms Settled show ?thesis
      by (simp add: on_outcome_simps nth_list_update split: if_splits)
  qed
qed

lemma settled_stays_run:
  "k < length (watches s) \<Longrightarrow> watches s ! k = None \<Longrightarrow>
     k < length (watches (run evs s)) \<and> watches (run evs s) ! k = None"
proof (induction evs arbitrary: s)
  case Nil
  then show ?case by simp
next
  case (Cons e evs)
  from settled_stays_step[OF Cons.prems, of e] show ?case
    by (simp add: Cons.IH del: step.simps)
qed

lemma watch_settled_after:
  "outstanding s k = Some c \<Longrightarrow>
     k < length (watches (step s (Settled k out))) \<and> watches (step s (Settled k out)) ! k = None"
  by (simp add: on_outcome_simps split: if_splits)

lemma splice_array_beyond: "length xs \<le> start \<Longrightarrow> splice_array start n xs = xs"
  by (simp add: splice_array_def)

lemma requests_append [simp]: "requests (tr @ tr') = requests tr @ requests tr'"
  by (simp add: requests_def)

lemma store_sets_append [simp]: "store_sets (tr @ tr') = store_sets tr @ store_sets tr'"
  by (simp add: store_sets_def)

text \<open>
  While the recorded index is inside the collection, the \<^verbatim>\<open>then\<close> callback
  removes one element, the one at that index.
\<close>

lemma then_handler_in_range:
  "idxAppendedTransaction c < length (txs s) \<Longrightarrow>
     length (txs (then_handler c receipt s)) = length (txs s) - 1"
  by (simp add: txs_then_handler splice_array_def)

text \<open>The definitions that evaluate a run on concrete events.\<close>

lemmas eval_defs = run_def init_def add_def waitForTransaction_def set_store_def
  update_store_def then_handler_def catch_handler_def resolve_def reject_def complete_def
  splice_array_def TIMEOUT_def Let_def

section \<open>The claims\<close>

text \<open>
  C1. When the provider's promise of a call of \<^verbatim>\<open>add\<close> is fulfilled with a
  receipt of status 1, the pending collection gets shorter by exactly one element and
  the returned promise is fulfilled with that receipt.

  The code does the second part and misses the first when an earlier entry has left the
  collection in the meantime. Two transactions are added and both are mined, in the
  order of their submission. The second call recorded index 1; when its receipt arrives
  the collection is \<open>[T2]\<close>, nothing is at index 1, and the collection stays
  \<open>[T2]\<close>: its length does not change, and the mined transaction stays pending,
  though its promise is fulfilled with the receipt.
\<close>

theorem second_mined_transaction_stays_pending:
  "let T1 = \<lparr>hash = ''0xA''\<rparr>; T2 = \<lparr>hash = ''0xB''\<rparr>; signer = \<lparr>provider = 0\<rparr>;
       r1 = \<lparr>transactionHash = ''0xA'', status = Some 1\<rparr>;
       r2 = \<lparr>transactionHash = ''0xB'', status = Some 1\<rparr>;
       s = run [Add T1 signer, Add T2 signer, Settled 0 (Receipt r1)] init;
       s' = step s (Settled 1 (Receipt r2))
   in fst (add T2 signer (run [Add T1 signer] init)) = 1
      \<and> outstanding s 1 = Some \<lparr>idxAppendedTransaction = 1, deferred = 1\<rparr>
      \<and> txs s = [T2]
      \<and> txs s' = [T2]
      \<and> length (txs s') = length (txs s)
      \<and> deferreds s' ! 1 = Fulfilled r2"
  by (simp add: eval_defs)

text \<open>
  C2. A call of \<^verbatim>\<open>add(tx, signer)\<close> makes the pending collection longer by
  exactly one element within the call: \<open>tx\<close> is appended at the end, the index
  captured for the later removal is the new last index, the promise that is returned is
  still pending, and the call itself calls neither resolve nor reject on any deferred.
\<close>

theorem add_appends_synchronously:
  "txs (snd (add tx signer s)) = txs s @ [tx]
   \<and> length (txs (snd (add tx signer s))) = length (txs s) + 1
   \<and> watches (snd (add tx signer s)) =
       watches s @ [Some \<lparr>idxAppendedTransaction = length (txs (snd (add tx signer s))) - 1,
                            deferred = fst (add tx signer s)\<rparr>]
   \<and> deferreds (snd (add tx signer s)) ! fst (add tx signer s) = Pending
   \<and> settle_count d (trace (snd (add tx signer s))) = settle_count d (trace s)"
  by (simp add: add_simps)

text \<open>
  C3. When the provider's promise of a call of \<^verbatim>\<open>add\<close> is fulfilled with a
  receipt whose status is not 1, the returned promise is rejected with a "Transaction
  failed" error whose cause is that receipt, and the pending collection gets shorter by
  exactly one element.

  The code does the first part and misses the second in the same way as for a receipt
  of status 1: of two transactions that were added and whose receipts arrive in the
  order of submission, the second finds nothing at its recorded index 1 in the
  collection \<open>[T2]\<close>, which keeps its length.
\<close>

theorem second_failed_transaction_stays_pending:
  "let T1 = \<lparr>hash = ''0xA''\<rparr>; T2 = \<lparr>hash = ''0xB''\<rparr>; signer = \<lparr>provider = 0\<rparr>;
       r1 = \<lparr>transactionHash = ''0xA'', status = Some 0\<rparr>;
       r2 = \<lparr>transactionHash = ''0xB'', status = Some 0\<rparr>;
       s = run [Add T1 signer, Add T2 signer, Settled 0 (Receipt r1)] init;
       s' = step s (Settled 1 (Receipt r2))
   in fst (add T2 signer (run [Add T1 signer] init)) = 1
      \<and> outstanding s 1 = Some \<lparr>idxAppendedTransaction = 1, deferred = 1\<rparr>
      \<and> txs s = [T2]
      \<and> txs s' = [T2]
      \<and> length (txs s') = length (txs s)
      \<and> deferreds s' ! 1 = Rejected (Error ''Transaction failed'' (CauseReceipt r2))"
  by (simp add: eval_defs)

text \<open>
  C4. When the provider's promise of a call of \<^verbatim>\<open>add\<close> is rejected with an
  error, the returned promise, pending until then, is rejected: with the timeout error
  when the code of the error is the provider's TIMEOUT classification, and with the
  generic "transaction failed" error otherwise, the cause being the original error in
  both cases.
\<close>

theorem watch_rejection_rejects_future:
  assumes "outstanding (run evs init) k = Some c"
  shows "deferreds (run evs init) ! deferred c = Pending
    \<and> deferreds (step (run evs init) (Settled k (Failure error))) ! deferred c =
        Rejected (if error_code error = Some TIMEOUT
                  then Error ''timeout while waiting for transaction to be mined'' (CauseError error)
                  else Error ''transaction failed'' (CauseError error))"
proof -
  have c: "consistent (run evs init)"
    by (rule consistent_run[OF consistent_init])
  note o = consistent_outstanding[OF c assms]
  show ?thesis
    using o by (simp add: step_settled_outstanding[OF assms] deferreds_catch_handler nth_complete
        del: step.simps)
qed

theorem watch_rejection_rejects_future_witness:
  "outstanding (run [Add \<lparr>hash = ''0xC''\<rparr> \<lparr>provider = 0\<rparr>] init) 0 =
     Some \<lparr>idxAppendedTransaction = 0, deferred = 0\<rparr>
   \<and> deferreds (step (run [Add \<lparr>hash = ''0xC''\<rparr> \<lparr>provider = 0\<rparr>] init)
        (Settled 0 (Failure (ErrorObject (Some ''TIMEOUT'') ''timeout exceeded'')))) ! 0 =
      Rejected (Error ''timeout while waiting for transaction to be mined''
        (CauseError (ErrorObject (Some ''TIMEOUT'') ''timeout exceeded'')))
   \<and> deferreds (step (run [Add \<lparr>hash = ''0xC''\<rparr> \<lparr>provider = 0\<rparr>] init)
        (Settled 0 (Failure (ErrorObject (Some ''NETWORK_ERROR'') ''could not detect network'')))) ! 0 =
      Rejected (Error ''transaction failed''
        (CauseError (ErrorObject (Some ''NETWORK_ERROR'') ''could not detect network'')))"
proof -
  have h: "outstanding (run [Add \<lparr>hash = ''0xC''\<rparr> \<lparr>provider = 0\<rparr>] init) 0 =
     Some \<lparr>idxAppendedTransaction = 0, deferred = 0\<rparr>"
    by (simp add: eval_defs)
  show ?thesis
    using watch_rejection_rejects_future[OF h, of "ErrorObject (Some ''TIMEOUT'') ''timeout exceeded''"]
      watch_rejection_rejects_future[OF h, of "ErrorObject (Some ''NETWORK_ERROR'') ''could not detect network''"]
    by (simp add: eval_defs)
qed

text \<open>
  C5. For every call of \<^verbatim>\<open>add\<close> and every outcome of its provider promise
  (a receipt of any status, a timeout error or any other error): before the outcome
  arrives neither resolve nor reject has been called on the returned promise's deferred,
  handling the outcome calls exactly one of them, and whatever happens afterwards the
  count stays at one and the promise stays settled.
\<close>

theorem future_completed_exactly_once:
  assumes "outstanding (run evs init) k = Some c"
  shows "settle_count (deferred c) (trace (run evs init)) = 0
    \<and> settle_count (deferred c) (trace (step (run evs init) (Settled k out))) = 1
    \<and> settle_count (deferred c) (trace (run evs' (step (run evs init) (Settled k out)))) = 1
    \<and> deferreds (run evs' (step (run evs init) (Settled k out))) ! deferred c \<noteq> Pending"
proof -
  define s where "s = run evs init"
  define s' where "s' = step s (Settled k out)"
  have c: "consistent s"
    unfolding s_def by (rule consistent_run[OF consistent_init])
  note o = consistent_outstanding[OF c assms[folded s_def]]
  have c': "consistent (run evs' s')"
    unfolding s'_def by (intro consistent_run consistent_step c)
  have w: "k < length (watches s') \<and> watches s' ! k = None"
    unfolding s'_def by (rule watch_settled_after[OF assms[folded s_def]])
  then have w': "k < length (watches (run evs' s'))" "watches (run evs' s') ! k = None"
    using settled_stays_run[of k s' evs'] by simp_all
  have "settle_count k (trace (run [] s')) = 1"
    using consistent_settled_count(1)[of "run [] s'" k] w consistent_step[OF c, of "Settled k out"]
    by (simp add: s'_def del: step.simps)
  moreover note consistent_settled_count[OF c' w']
  ultimately show ?thesis
    using o by (simp add: s_def[symmetric] s'_def[symmetric] del: step.simps)
qed

theorem future_completed_exactly_once_witness:
  "outstanding (run [Add \<lparr>hash = ''0xA''\<rparr> \<lparr>provider = 0\<rparr>] init) 0 =
     Some \<lparr>idxAppendedTransaction = 0, deferred = 0\<rparr>
   \<and> settle_count 0 (trace (run [Add \<lparr>hash = ''0xA''\<rparr> \<lparr>provider = 0\<rparr>] init)) = 0
   \<and> settle_count 0 (trace (step (run [Add \<lparr>hash = ''0xA''\<rparr> \<lparr>provider = 0\<rparr>] init)
        (Settled 0 (Receipt \<lparr>transactionHash = ''0xA'', status = Some 1\<rparr>)))) = 1
   \<and> settle_count 0 (trace (run [Settled 0 (Failure Nullish), Add \<lparr>hash = ''0xB''\<rparr> \<lparr>provider = 0\<rparr>]
        (step (run [Add \<lparr>hash = ''0xA''\<rparr> \<lparr>provider = 0\<rparr>] init)
        (Settled 0 (Receipt \<lparr>transactionHash = ''0xA'', status = Some 1\<rparr>))))) = 1"
proof -
  have h: "outstanding (run [Add \<lparr>hash = ''0xA''\<rparr> \<lparr>provider = 0\<rparr>] init) 0 =
     Some \<lparr>idxAppendedTransaction = 0, deferred = 0\<rparr>"
    by (simp add: eval_defs)
  show ?thesis
    using future_completed_exactly_once[OF h,
        of "Receipt \<lparr>transactionHash = ''0xA'', status = Some 1\<rparr>"
           "[Settled 0 (Failure Nullish), Add \<lparr>hash = ''0xB''\<rparr> \<lparr>provider = 0\<rparr>]"]
    by (simp add: eval_defs settle_count_def)
qed

text \<open>
  C6. When the provider's promise is rejected, with a timeout or with any other error,
  handling it leaves the pending collection as it was, and gives the store no new
  value: the appended entry is not removed.
\<close>

theorem watch_rejection_keeps_collection:
  "txs (catch_handler c error s) = txs s
   \<and> store_sets (trace (catch_handler c error s)) = store_sets (trace s)
   \<and> txs (step s (Settled k (Failure error))) = txs s
   \<and> store_sets (trace (step s (Settled k (Failure error)))) = store_sets (trace s)"
proof -
  have "store_sets (trace (catch_handler c' error s')) = store_sets (trace s')" for c' s'
    by (simp add: trace_catch_handler store_sets_def)
  then show ?thesis
    by (cases "outstanding s k") (simp_all del: outstanding.simps)
qed

text \<open>
  C7. The removal on confirmation deletes the element at the index recorded when the
  transaction was appended, whatever the hashes of the elements are. So there is a
  sequence of operations in which another removal runs in between and the element
  removed is not the submitted transaction: three transactions are added, the first is
  mined, and when the second (recorded index 1) is mined, the third is removed from
  \<open>[T2, T3]\<close> and the second stays.
\<close>

theorem removal_is_by_recorded_index:
  "txs (then_handler c receipt s) =
     take (idxAppendedTransaction c) (txs s) @ drop (idxAppendedTransaction c + 1) (txs s)
   \<and> (let T1 = \<lparr>hash = ''0xA''\<rparr>; T2 = \<lparr>hash = ''0xB''\<rparr>; T3 = \<lparr>hash = ''0xC''\<rparr>;
           signer = \<lparr>provider = 0\<rparr>;
           r1 = \<lparr>transactionHash = ''0xA'', status = Some 1\<rparr>;
           r2 = \<lparr>transactionHash = ''0xB'', status = Some 1\<rparr>;
           s = run [Add T1 signer, Add T2 signer, Add T3 signer, Settled 0 (Receipt r1)] init;
           s' = step s (Settled 1 (Receipt r2))
       in fst (add T2 signer (run [Add T1 signer] init)) = 1
          \<and> outstanding s 1 = Some \<lparr>idxAppendedTransaction = 1, deferred = 1\<rparr>
          \<and> txs s = [T2, T3]
          \<and> txs s' = [T2]
          \<and> deferreds s' ! 1 = Fulfilled r2)"
  by (simp add: txs_then_handler) (simp add: eval_defs)

text \<open>
  C8. When the provider's promise of a call of \<^verbatim>\<open>add\<close> is fulfilled with a
  receipt, the store takes the collection without the removed entry first, and resolve
  or reject is called on the deferred of that call after that: these are the two
  effects of handling the receipt, in this order.
\<close>

theorem removal_precedes_completion:
  "outstanding s k = Some c \<Longrightarrow>
     trace (step s (Settled k (Receipt receipt))) =
       trace s @ [StoreSet (splice_array (idxAppendedTransaction c) 1 (txs s)),
                  if status receipt = Some 1 then Resolve (deferred c) receipt
                  else Reject (deferred c) (Error ''Transaction failed'' (CauseReceipt receipt))]"
  by (simp add: trace_then_handler del: outstanding.simps)

theorem removal_precedes_completion_witness:
  "outstanding (run [Add \<lparr>hash = ''0xA''\<rparr> \<lparr>provider = 0\<rparr>] init) 0 =
     Some \<lparr>idxAppendedTransaction = 0, deferred = 0\<rparr>
   \<and> trace (step (run [Add \<lparr>hash = ''0xA''\<rparr> \<lparr>provider = 0\<rparr>] init)
        (Settled 0 (Receipt \<lparr>transactionHash = ''0xA'', status = Some 1\<rparr>))) =
      [WaitForTransaction 0 ''0xA'' 1 300000, StoreSet [\<lparr>hash = ''0xA''\<rparr>], StoreSet [],
       Resolve 0 \<lparr>transactionHash = ''0xA'', status = Some 1\<rparr>]"
proof -
  have h: "outstanding (run [Add \<lparr>hash = ''0xA''\<rparr> \<lparr>provider = 0\<rparr>] init) 0 =
     Some \<lparr>idxAppendedTransaction = 0, deferred = 0\<rparr>"
    by (simp add: eval_defs)
  show ?thesis
    using removal_precedes_completion[OF h, of "\<lparr>transactionHash = ''0xA'', status = Some 1\<rparr>"]
    by (simp add: eval_defs)
qed

text \<open>
  C9. Every call of \<^verbatim>\<open>add(tx, signer)\<close> issues exactly one request to the
  provider of the signer, for the hash of \<open>tx\<close>, one confirmation and a timeout of
  5 * 60 * 1000 milliseconds. Nothing else issues a request: not a call of
  \<^verbatim>\<open>set\<close>, and not the handling of any outcome, so there is no retry.
\<close>

theorem one_watch_request_per_add:
  "requests (trace (step s (Add tx signer))) =
     requests (trace s) @ [WaitForTransaction (provider signer) (hash tx) 1 (5 * 60 * 1000)]
   \<and> requests (trace (step s (Set new))) = requests (trace s)
   \<and> requests (trace (step s (Settled k out))) = requests (trace s)"
proof -
  have "requests (trace (on_outcome c out s')) = requests (trace s')" for c s'
    by (cases out) (simp_all add: trace_then_handler trace_catch_handler requests_def)
  then have "requests (trace (step s (Settled k out))) = requests (trace s)"
    by (cases "outstanding s k") (simp_all del: outstanding.simps on_outcome.simps)
  then show ?thesis
    by (simp add: add_simps requests_def)
qed

text \<open>
  C10. If the recorded index is at or beyond the length of the pending collection when
  the receipt arrives, the removal changes nothing: the collection and its length are
  as before, and the returned promise is still fulfilled (status 1) or rejected (any
  other status).
\<close>

theorem stale_index_removes_nothing:
  assumes "outstanding (run evs init) k = Some c"
    and "length (txs (run evs init)) \<le> idxAppendedTransaction c"
  shows "txs (step (run evs init) (Settled k (Receipt receipt))) = txs (run evs init)
    \<and> length (txs (step (run evs init) (Settled k (Receipt receipt)))) = length (txs (run evs init))
    \<and> deferreds (step (run evs init) (Settled k (Receipt receipt))) ! deferred c =
        (if status receipt = Some 1 then Fulfilled receipt
         else Rejected (Error ''Transaction failed'' (CauseReceipt receipt)))"
proof -
  have c: "consistent (run evs init)"
    by (rule consistent_run[OF consistent_init])
  note o = consistent_outstanding[OF c assms(1)]
  show ?thesis
    using o assms(2)
    by (simp add: step_settled_outstanding[OF assms(1)] txs_then_handler deferreds_then_handler
        nth_complete splice_array_beyond del: step.simps)
qed

theorem stale_index_removes_nothing_witness:
  "outstanding (run [Add \<lparr>hash = ''0xA''\<rparr> \<lparr>provider = 0\<rparr>, Set []] init) 0 =
     Some \<lparr>idxAppendedTransaction = 0, deferred = 0\<rparr>
   \<and> length (txs (run [Add \<lparr>hash = ''0xA''\<rparr> \<lparr>provider = 0\<rparr>, Set []] init)) \<le> 0
   \<and> txs (step (run [Add \<lparr>hash = ''0xA''\<rparr> \<lparr>provider = 0\<rparr>, Set []] init)
        (Settled 0 (Receipt \<lparr>transactionHash = ''0xA'', status = Some 1\<rparr>))) = []
   \<and> deferreds (step (run [Add \<lparr>hash = ''0xA''\<rparr> \<lparr>provider = 0\<rparr>, Set []] init)
        (Settled 0 (Receipt \<lparr>transactionHash = ''0xA'', status = Some 1\<rparr>))) ! 0 =
      Fulfilled \<lparr>transactionHash = ''0xA'', status = Some 1\<rparr>"
proof -
  have h: "outstanding (run [Add \<lparr>hash = ''0xA''\<rparr> \<lparr>provider = 0\<rparr>, Set []] init) 0 =
     Some \<lparr>idxAppendedTransaction = 0, deferred = 0\<rparr>"
    by (simp add: eval_defs)
  have l: "txs (run [Add \<lparr>hash = ''0xA''\<rparr> \<lparr>provider = 0\<rparr>, Set []] init) = []"
    by (simp add: eval_defs)
  have l': "length (txs (run [Add \<lparr>hash = ''0xA''\<rparr> \<lparr>provider = 0\<rparr>, Set []] init))
      \<le> idxAppendedTransaction \<lparr>idxAppendedTransaction = 0, deferred = 0\<rparr>"
    by (simp add: l)
  show ?thesis
    using stale_index_removes_nothing[OF h l', of "\<lparr>transactionHash = ''0xA'', status = Some 1\<rparr>"]
    by (simp add: eval_defs)
qed

end
